theory Spec2Isabelle
  imports Main
begin

section \<open>The schemas store of \<^verbatim>\<open>mathesar_ui/src/stores/schemas.ts\<close>\<close>

text \<open>
  The file keeps one reactive cache (\<^verbatim>\<open>schemasStore\<close>) of the schemas of the active
  database. The store's value is threaded explicitly through every function below; a
  JavaScript \<^verbatim>\<open>Map\<close> is a partial function from keys to values (the iteration order of
  the \<^verbatim>\<open>Map\<close> is not read anywhere in the file). An \<^verbatim>\<open>await\<close> splits a function into the
  part before it and the part that resumes when the remote call settles; the outcome of
  a remote call is a sum, \<open>Inl\<close> a rejection and \<open>Inr\<close> the returned value.
\<close>

subsection \<open>Data model\<close>

text \<open>
  Modelled from the spec: the \<^verbatim>\<open>Database\<close> model class is imported, not defined in this
  file, which reads only its \<^verbatim>\<open>id\<close>. The second field stands for everything else a
  \<^verbatim>\<open>Database\<close> object carries, so that two objects with one id can differ.
\<close>

record Database =
  id_db :: int
  name_db :: string

text \<open>
  Modelled from the spec: \<^verbatim>\<open>RawSchema\<close> is the record the remote calls return
  (identifier and descriptive fields).
\<close>

record RawSchema =
  raw_oid :: int
  raw_name :: string
  raw_description :: "string option"

text \<open>
  Modelled from the spec: the \<^verbatim>\<open>Schema\<close> model class is imported. A schema object has an
  identifier (oid), an owning database reference and descriptive fields, and
  \<^verbatim>\<open>new Schema({ database, rawSchema })\<close> builds it from a raw record and its database.
\<close>

record Schema =
  oid :: int
  name :: string
  description :: "string option"
  database :: Database

definition new_Schema :: "Database \<Rightarrow> RawSchema \<Rightarrow> Schema" where
  "new_Schema db rawSchema =
     \<lparr>oid = raw_oid rawSchema, name = raw_name rawSchema,
      description = raw_description rawSchema, database = db\<rparr>"

datatype RequestStatus = Success | Processing | Failure "string list"

record SchemaStoreData =
  databaseId :: "int option"
  requestStatus :: RequestStatus
  data :: "int \<rightharpoonup> Schema"

text \<open>The argument of \<^verbatim>\<open>createSchema\<close>.\<close>

record SchemaProps =
  props_name :: string
  props_description :: "string option"

text \<open>
  \<^verbatim>\<open>preloadCommonData()\<close>: the data the server renders into the page. A field that is
  \<open>None\<close> is \<^verbatim>\<open>null\<close>, which \<^verbatim>\<open>===\<close> never equates with a number or with
  \<^verbatim>\<open>undefined\<close>.
\<close>

record CommonData =
  current_database :: "int option"
  current_schema :: "int option"
  schemas :: "RawSchema list"

subsection \<open>Store operations\<close>

definition makeEmptySchemasData :: SchemaStoreData where
  "makeEmptySchemasData = \<lparr>databaseId = None, requestStatus = Success, data = Map.empty\<rparr>"

text \<open>
  \<^verbatim>\<open>setSchemasInStore\<close> calls \<^verbatim>\<open>schemasStore.set\<close>: the old value of the store (the last
  argument) is not read.
\<close>

definition setSchemasInStore ::
    "Database \<Rightarrow> RawSchema list \<Rightarrow> SchemaStoreData \<Rightarrow> SchemaStoreData" where
  "setSchemasInStore db rawSchemas value =
     \<lparr>databaseId = Some (id_db db),
      requestStatus = Success,
      data = fold (\<lambda>rawSchema schemasMap.
                     schemasMap(raw_oid rawSchema \<mapsto> new_Schema db rawSchema))
                  rawSchemas Map.empty\<rparr>"

definition updateSchemaInStore ::
    "Database \<Rightarrow> Schema \<Rightarrow> SchemaStoreData \<Rightarrow> SchemaStoreData" where
  "updateSchemaInStore db schema value =
     (if databaseId value = Some (id_db db)
      then value\<lparr>data := (data value)(oid schema \<mapsto> schema)\<rparr>
      else value)"

definition removeSchemaInStore ::
    "Database \<Rightarrow> Schema \<Rightarrow> SchemaStoreData \<Rightarrow> SchemaStoreData" where
  "removeSchemaInStore db schema value =
     (if databaseId value = Some (id_db db)
      then value\<lparr>data := (data value)(oid schema := None)\<rparr>
      else value)"

subsection \<open>Module state and list requests\<close>

text \<open>
  Modelled from the spec: \<^verbatim>\<open>CancellablePromise\<close> comes from the component library, which
  is not part of this file. The spec says that starting a new fetch cancels the previous
  one and that a cancelled fetch has no effect on the cache: \<^verbatim>\<open>cancel()\<close> turns a pending
  request into a cancelled one, whose awaiting code is never resumed; on a request that
  has settled it changes nothing.
\<close>

datatype PromiseState = Pending | Cancelled | Settled

record ListRequest =
  request_database :: Database
  promise_state :: PromiseState

definition cancel :: "ListRequest \<Rightarrow> ListRequest" where
  "cancel r = (if promise_state r = Pending then r\<lparr>promise_state := Cancelled\<rparr> else r)"

text \<open>
  The module's variables: the store, \<^verbatim>\<open>request\<close> (an index into the list of all list
  requests issued so far, \<open>None\<close> while the variable is undefined), \<^verbatim>\<open>preload\<close>, and the value
  of \<^verbatim>\<open>databasesStore.currentDatabase\<close>.
\<close>

record ModuleState =
  schemasStore :: SchemaStoreData
  request :: "nat option"
  requests :: "ListRequest list"
  preload :: bool
  currentDatabase :: "Database option"

definition initial :: "Database option \<Rightarrow> ModuleState" where
  "initial db =
     \<lparr>schemasStore = makeEmptySchemasData, request = None, requests = [],
      preload = True, currentDatabase = db\<rparr>"

text \<open>\<^verbatim>\<open>request?.cancel()\<close>\<close>

definition cancel_request :: "ModuleState \<Rightarrow> ModuleState" where
  "cancel_request s =
     (case request s of
        None \<Rightarrow> s
      | Some i \<Rightarrow>
          if i < length (requests s)
          then s\<lparr>requests := (requests s)[i := cancel (requests s ! i)]\<rparr>
          else s)"

subsection \<open>\<^verbatim>\<open>fetchSchemasForCurrentDatabase\<close>\<close>

text \<open>Lines 84 to 106: everything up to the \<^verbatim>\<open>await\<close>.\<close>

definition fetchSchemasForCurrentDatabase_start :: "ModuleState \<Rightarrow> ModuleState" where
  "fetchSchemasForCurrentDatabase_start s0 =
     (let s = cancel_request s0 in
      case currentDatabase s of
        None \<Rightarrow> s\<lparr>schemasStore := makeEmptySchemasData\<rparr>
      | Some db \<Rightarrow>
          s\<lparr>schemasStore :=
               (if databaseId (schemasStore s) = Some (id_db db)
                then (schemasStore s)\<lparr>requestStatus := Processing\<rparr>
                else \<lparr>databaseId = Some (id_db db), requestStatus = Processing,
                      data = Map.empty\<rparr>),
            request := Some (length (requests s)),
            requests := requests s @ [\<lparr>request_database = db, promise_state = Pending\<rparr>]\<rparr>)"

text \<open>
  Lines 107 to 123: what runs when the list call settles, on the store as it is then.
  \<open>getErrorMessage\<close> is the imported helper that turns the caught value into a message.
  The first component is what the caller of the async function observes: \<open>Inr ()\<close> is a
  normal return.
\<close>

definition fetchSchemasForCurrentDatabase_resume ::
    "('e \<Rightarrow> string) \<Rightarrow> Database \<Rightarrow> 'e + RawSchema list \<Rightarrow> SchemaStoreData
       \<Rightarrow> ('e + unit) \<times> SchemaStoreData" where
  "fetchSchemasForCurrentDatabase_resume getErrorMessage db outcome value =
     (case outcome of
        Inr rawSchemas \<Rightarrow> (Inr (), setSchemasInStore db rawSchemas value)
      | Inl err \<Rightarrow>
          (Inr (),
           if databaseId value = Some (id_db db)
           then value\<lparr>requestStatus := Failure [getErrorMessage err]\<rparr>
           else \<lparr>databaseId = Some (id_db db),
                 requestStatus = Failure [getErrorMessage err],
                 data = Map.empty\<rparr>))"

text \<open>
  A whole run with nothing else happening between the call and the settling of the list
  request; \<open>list\<close> is the remote list call, given the database id.
\<close>

definition fetchSchemasForCurrentDatabase ::
    "('e \<Rightarrow> string) \<Rightarrow> (int \<Rightarrow> 'e + RawSchema list) \<Rightarrow> ModuleState
       \<Rightarrow> ('e + unit) \<times> ModuleState" where
  "fetchSchemasForCurrentDatabase getErrorMessage list s0 =
     (let s = fetchSchemasForCurrentDatabase_start s0 in
      case currentDatabase s0 of
        None \<Rightarrow> (Inr (), s)
      | Some db \<Rightarrow>
          (let (res, value) =
                 fetchSchemasForCurrentDatabase_resume getErrorMessage db
                   (list (id_db db)) (schemasStore s)
           in (res, s\<lparr>schemasStore := value,
                      requests := (requests s)[length (requests s0) :=
                         \<lparr>request_database = db, promise_state = Settled\<rparr>]\<rparr>)))"

subsection \<open>\<^verbatim>\<open>createSchema\<close> and \<^verbatim>\<open>deleteSchema\<close>\<close>

text \<open>
  Neither function touches the store before its \<^verbatim>\<open>await\<close>, so the store argument is the
  store at the moment the remote call settles. \<open>add\<close> is \<^verbatim>\<open>api.schemas.add\<close> (database
  id, name, description) and \<open>delete\<close> is the \<^verbatim>\<open>delete\<close> method of the schema object. A
  rejected call makes the \<^verbatim>\<open>await\<close> throw, and nothing in the function catches it.
\<close>

definition createSchema ::
    "(int \<Rightarrow> string \<Rightarrow> string option \<Rightarrow> 'e + RawSchema) \<Rightarrow> Database \<Rightarrow> SchemaProps
       \<Rightarrow> SchemaStoreData \<Rightarrow> ('e + unit) \<times> SchemaStoreData" where
  "createSchema add db props value =
     (case add (id_db db) (props_name props) (props_description props) of
        Inl err \<Rightarrow> (Inl err, value)
      | Inr rawSchema \<Rightarrow>
          (Inr (), updateSchemaInStore db (new_Schema db rawSchema) value))"

definition deleteSchema ::
    "(Schema \<Rightarrow> 'e + unit) \<Rightarrow> Schema \<Rightarrow> SchemaStoreData
       \<Rightarrow> ('e + unit) \<times> SchemaStoreData" where
  "deleteSchema delete schema value =
     (case delete schema of
        Inl err \<Rightarrow> (Inl err, value)
      | Inr _ \<Rightarrow> (Inr (), removeSchemaInStore (database schema) schema value))"

subsection \<open>The derived store \<^verbatim>\<open>schemas\<close>\<close>

text \<open>
  The callback of \<^verbatim>\<open>derived(databasesStore.currentDatabase, ...)\<close>, run on the module
  state in which \<open>currentDatabase\<close> already holds the new value. The preloaded schemas
  are used when \<^verbatim>\<open>commonData.current_database === $currentDatabase?.id\<close>, which needs
  both sides to be numbers.
\<close>

definition is_failure :: "RequestStatus \<Rightarrow> bool" where
  "is_failure st = (case st of Failure _ \<Rightarrow> True | _ \<Rightarrow> False)"

definition use_preload :: "CommonData \<Rightarrow> ModuleState \<Rightarrow> Database option" where
  "use_preload commonData s =
     (case (current_database commonData, currentDatabase s) of
        (Some c, Some db) \<Rightarrow> if preload s \<and> c = id_db db then Some db else None
      | _ \<Rightarrow> None)"

definition schemas_derived :: "CommonData \<Rightarrow> ModuleState \<Rightarrow> ModuleState" where
  "schemas_derived commonData s =
     (if databaseId (schemasStore s) \<noteq> map_option id_db (currentDatabase s)
      then
        (case use_preload commonData s of
           Some db \<Rightarrow>
             s\<lparr>schemasStore := setSchemasInStore db (schemas commonData) (schemasStore s)\<rparr>
         | None \<Rightarrow> fetchSchemasForCurrentDatabase_start s)\<lparr>preload := False\<rparr>
      else if is_failure (requestStatus (schemasStore s))
      then fetchSchemasForCurrentDatabase_start s
      else s)"

subsection \<open>Interleavings\<close>

text \<open>
  What can happen to the module, one event at a time: a call of
  \<^verbatim>\<open>fetchSchemasForCurrentDatabase\<close>, the settling of list request number \<open>i\<close>, a change
  of the active database that the callback of \<^verbatim>\<open>schemas\<close> sees (\<open>SwitchDatabase\<close>; with the
  value unchanged it is the first subscription to \<^verbatim>\<open>schemas\<close>), a change of the active
  database while \<^verbatim>\<open>schemas\<close> has no subscriber, so that the callback does not run
  (\<open>DatabaseChanges\<close>), and the settling of the remote call of a \<^verbatim>\<open>createSchema\<close> or
  \<^verbatim>\<open>deleteSchema\<close>. An event that cannot happen (a list request that does not exist, has
  settled or was cancelled) gives \<open>None\<close>.
\<close>

datatype 'e Event =
    CallFetch
  | ListSettles nat "'e + RawSchema list"
  | SwitchDatabase "Database option"
  | DatabaseChanges "Database option"
  | CreateSettles Database SchemaProps "'e + RawSchema"
  | DeleteSettles Schema "'e + unit"

fun step :: "('e \<Rightarrow> string) \<Rightarrow> CommonData \<Rightarrow> 'e Event \<Rightarrow> ModuleState
               \<Rightarrow> ModuleState option" where
  "step gem cd CallFetch s = Some (fetchSchemasForCurrentDatabase_start s)"
| "step gem cd (ListSettles i outcome) s =
     (if i < length (requests s) \<and> promise_state (requests s ! i) = Pending
      then Some (s\<lparr>schemasStore :=
                      snd (fetchSchemasForCurrentDatabase_resume gem
                             (request_database (requests s ! i)) outcome (schemasStore s)),
                   requests := (requests s)[i := (requests s ! i)\<lparr>promise_state := Settled\<rparr>]\<rparr>)
      else None)"
| "step gem cd (SwitchDatabase db) s =
     Some (schemas_derived cd (s\<lparr>currentDatabase := db\<rparr>))"
| "step gem cd (DatabaseChanges db) s = Some (s\<lparr>currentDatabase := db\<rparr>)"
| "step gem cd (CreateSettles db props outcome) s =
     Some (s\<lparr>schemasStore :=
                snd (createSchema (\<lambda>_ _ _. outcome) db props (schemasStore s))\<rparr>)"
| "step gem cd (DeleteSettles schema outcome) s =
     Some (s\<lparr>schemasStore := snd (deleteSchema (\<lambda>_. outcome) schema (schemasStore s))\<rparr>)"

fun run :: "('e \<Rightarrow> string) \<Rightarrow> CommonData \<Rightarrow> 'e Event list \<Rightarrow> ModuleState
              \<Rightarrow> ModuleState option" where
  "run gem cd [] s = Some s"
| "run gem cd (ev # evs) s =
     (case step gem cd ev s of None \<Rightarrow> None | Some s' \<Rightarrow> run gem cd evs s')"

subsection \<open>Observations on the module state\<close>

text \<open>The list requests that are in flight: issued, not settled and not cancelled.\<close>

definition in_flight :: "ModuleState \<Rightarrow> nat list" where
  "in_flight s =
     filter (\<lambda>i. promise_state (requests s ! i) = Pending) [0..<length (requests s)]"

text \<open>Only the request held in the variable \<^verbatim>\<open>request\<close> can be pending.\<close>

definition only_request_pending :: "ModuleState \<Rightarrow> bool" where
  "only_request_pending s \<longleftrightarrow>
     (\<forall>i<length (requests s).
        promise_state (requests s ! i) = Pending \<longrightarrow> request s = Some i)"

text \<open>Every schema in the cache is owned by the database the cache is for.\<close>

definition schemas_belong :: "SchemaStoreData \<Rightarrow> bool" where
  "schemas_belong value \<longleftrightarrow>
     (\<forall>k sc. data value k = Some sc \<longrightarrow> databaseId value = Some (id_db (database sc)))"

subsection \<open>Example values\<close>

definition database_one :: Database where
  "database_one = \<lparr>id_db = 1, name_db = ''library''\<rparr>"

definition database_two :: Database where
  "database_two = \<lparr>id_db = 2, name_db = ''museum''\<rparr>"

definition raw_five :: RawSchema where
  "raw_five = \<lparr>raw_oid = 5, raw_name = ''public'', raw_description = None\<rparr>"

definition raw_six :: RawSchema where
  "raw_six = \<lparr>raw_oid = 6, raw_name = ''archive'', raw_description = Some ''old records''\<rparr>"

definition props_public :: SchemaProps where
  "props_public = \<lparr>props_name = ''public'', props_description = None\<rparr>"

text \<open>
  Stand-ins for the imported functions: \<^verbatim>\<open>getErrorMessage\<close> on errors that are strings, an
  add call that returns a given record, and a delete call that succeeds.
\<close>

definition error_text :: "string \<Rightarrow> string" where
  "error_text err = err"

definition add_returns ::
    "RawSchema \<Rightarrow> int \<Rightarrow> string \<Rightarrow> string option \<Rightarrow> string + RawSchema" where
  "add_returns rawSchema database_id schema_name schema_description = Inr rawSchema"

definition delete_succeeds :: "Schema \<Rightarrow> string + unit" where
  "delete_succeeds schema = Inr ()"

text \<open>A cache for database 1 that already holds a schema under oid 5.\<close>

definition store_one :: SchemaStoreData where
  "store_one =
     \<lparr>databaseId = Some 1, requestStatus = Success,
      data = [5 \<mapsto> new_Schema database_one
                      \<lparr>raw_oid = 5, raw_name = ''stale'', raw_description = None\<rparr>]\<rparr>"

text \<open>The page preloads database 1 with one schema.\<close>

definition preloaded_one :: CommonData where
  "preloaded_one = \<lparr>current_database = Some 1, current_schema = None, schemas = [raw_five]\<rparr>"

text \<open>
  The module after \<^verbatim>\<open>fetchSchemasForCurrentDatabase\<close> was called for database 1 and then,
  with that list request still pending, the active database changed to database 2.
\<close>

definition two_requests :: ModuleState where
  "two_requests =
     \<lparr>schemasStore = \<lparr>databaseId = Some 2, requestStatus = Processing, data = Map.empty\<rparr>,
      request = Some 1,
      requests = [\<lparr>request_database = database_one, promise_state = Cancelled\<rparr>,
                  \<lparr>request_database = database_two, promise_state = Pending\<rparr>],
      preload = False,
      currentDatabase = Some database_two\<rparr>"

text \<open>The module after a fetch for database 1 whose list call returned one schema.\<close>

definition fetched_one :: ModuleState where
  "fetched_one =
     \<lparr>schemasStore = \<lparr>databaseId = Some 1, requestStatus = Success,
                      data = [5 \<mapsto> new_Schema database_one raw_five]\<rparr>,
      request = Some 0,
      requests = [\<lparr>request_database = database_one, promise_state = Settled\<rparr>],
      preload = True,
      currentDatabase = Some database_one\<rparr>"

text \<open>A list request for database 1 is pending and no database is selected any more.\<close>

definition pending_no_database :: ModuleState where
  "pending_no_database =
     \<lparr>schemasStore = \<lparr>databaseId = Some 1, requestStatus = Processing, data = Map.empty\<rparr>,
      request = Some 0,
      requests = [\<lparr>request_database = database_one, promise_state = Pending\<rparr>],
      preload = True,
      currentDatabase = None\<rparr>"

text \<open>
  Database 1 is preloaded and active at the start; the active database changes to
  database 2 while \<^verbatim>\<open>schemas\<close> has no subscriber, and
  \<^verbatim>\<open>fetchSchemasForCurrentDatabase\<close> is called.
\<close>

definition pending_two :: ModuleState where
  "pending_two =
     \<lparr>schemasStore = \<lparr>databaseId = Some 2, requestStatus = Processing, data = Map.empty\<rparr>,
      request = Some 0,
      requests = [\<lparr>request_database = database_two, promise_state = Pending\<rparr>],
      preload = True,
      currentDatabase = Some database_two\<rparr>"

text \<open>Then the active database changes back to database 1 and the callback runs.\<close>

definition seeded_one :: ModuleState where
  "seeded_one =
     \<lparr>schemasStore = \<lparr>databaseId = Some 1, requestStatus = Success,
                      data = [5 \<mapsto> new_Schema database_one raw_five]\<rparr>,
      request = Some 0,
      requests = [\<lparr>request_database = database_two, promise_state = Pending\<rparr>],
      preload = False,
      currentDatabase = Some database_one\<rparr>"

text \<open>Then the list call for database 2 returns one schema.\<close>

definition overwritten_two :: ModuleState where
  "overwritten_two =
     \<lparr>schemasStore = \<lparr>databaseId = Some 2, requestStatus = Success,
                      data = [6 \<mapsto> new_Schema database_two raw_six]\<rparr>,
      request = Some 0,
      requests = [\<lparr>request_database = database_two, promise_state = Settled\<rparr>],
      preload = False,
      currentDatabase = Some database_one\<rparr>"

section \<open>Properties\<close>

subsection \<open>Building the map of schemas\<close>

lemma fold_set_dom:
  "dom (fold (\<lambda>r m. m(raw_oid r \<mapsto> f r)) rs m0) = dom m0 \<union> raw_oid ` set rs"
  by (induction rs arbitrary: m0) auto

lemma fold_set_entry:
  "fold (\<lambda>r m. m(raw_oid r \<mapsto> f r)) rs m0 k = Some v \<Longrightarrow>
     m0 k = Some v \<or> (\<exists>r\<in>set rs. raw_oid r = k \<and> v = f r)"
  by (induction rs arbitrary: m0) (fastforce split: if_splits)+

lemma fold_set_notin:
  "k \<notin> raw_oid ` set rs \<Longrightarrow> fold (\<lambda>r m. m(raw_oid r \<mapsto> f r)) rs m0 k = m0 k"
  by (induction rs arbitrary: m0) auto

lemma fold_set_distinct:
  "distinct (map raw_oid rs) \<Longrightarrow> r \<in> set rs \<Longrightarrow>
     fold (\<lambda>r m. m(raw_oid r \<mapsto> f r)) rs m0 (raw_oid r) = Some (f r)"
  by (induction rs arbitrary: m0) (auto simp: fold_set_notin)

lemma setSchemasInStore_fields:
  "databaseId (setSchemasInStore db rs v) = Some (id_db db)"
  "requestStatus (setSchemasInStore db rs v) = Success"
  by (simp_all add: setSchemasInStore_def)

lemma setSchemasInStore_dom: "dom (data (setSchemasInStore db rs v)) = raw_oid ` set rs"
  by (simp add: setSchemasInStore_def fold_set_dom)

lemma setSchemasInStore_entry:
  "data (setSchemasInStore db rs v) k = Some sc \<Longrightarrow>
     \<exists>r\<in>set rs. raw_oid r = k \<and> sc = new_Schema db r"
  using fold_set_entry [of "new_Schema db" rs Map.empty k sc]
  by (simp add: setSchemasInStore_def)

lemma setSchemasInStore_distinct:
  "distinct (map raw_oid rs) \<Longrightarrow> r \<in> set rs \<Longrightarrow>
     data (setSchemasInStore db rs v) (raw_oid r) = Some (new_Schema db r)"
  by (simp add: setSchemasInStore_def fold_set_distinct)

subsection \<open>Creating and then deleting\<close>

lemma data_update_eq: "(value\<lparr>data := m\<rparr> = (value::SchemaStoreData)) \<longleftrightarrow> m = data value"
  by (cases "value") auto

lemma create_then_delete:
  "removeSchemaInStore db (new_Schema db rawSchema)
     (updateSchemaInStore db (new_Schema db rawSchema) value) =
   (if databaseId value = Some (id_db db)
    then value\<lparr>data := (data value)(raw_oid rawSchema := None)\<rparr> else value)"
  by (simp add: updateSchemaInStore_def removeSchemaInStore_def new_Schema_def)

subsection \<open>Cancelling and starting a fetch\<close>

lemma cancel_request_fields:
  "schemasStore (cancel_request s) = schemasStore s"
  "currentDatabase (cancel_request s) = currentDatabase s"
  "preload (cancel_request s) = preload s"
  "request (cancel_request s) = request s"
  "length (requests (cancel_request s)) = length (requests s)"
  by (simp_all add: cancel_request_def split: option.splits)

lemma cancel_state:
  "promise_state (cancel r) = (if promise_state r = Pending then Cancelled else promise_state r)"
  by (simp add: cancel_def)

lemma cancel_request_nth:
  assumes "i < length (requests s)"
  shows "promise_state (requests (cancel_request s) ! i) =
     (if request s = Some i \<and> promise_state (requests s ! i) = Pending then Cancelled
      else promise_state (requests s ! i))"
proof (cases "request s")
  case None
  then show ?thesis by (simp add: cancel_request_def)
next
  case (Some j)
  show ?thesis
  proof (cases "j = i")
    case True
    with Some assms show ?thesis
      by (simp add: cancel_request_def cancel_state)
  next
    case False
    with Some assms show ?thesis
      by (simp add: cancel_request_def)
  qed
qed

lemma cancel_request_none_pending:
  assumes "only_request_pending s" and "i < length (requests s)"
  shows "promise_state (requests (cancel_request s) ! i) \<noteq> Pending"
proof (cases "promise_state (requests s ! i) = Pending")
  case True
  with assms have "request s = Some i"
    by (simp add: only_request_pending_def)
  with True assms(2) show ?thesis
    by (simp add: cancel_request_nth)
next
  case False
  with assms(2) show ?thesis
    by (simp add: cancel_request_nth)
qed

lemma start_store_Some:
  "currentDatabase s = Some db \<Longrightarrow>
   schemasStore (fetchSchemasForCurrentDatabase_start s) =
     (if databaseId (schemasStore s) = Some (id_db db)
      then (schemasStore s)\<lparr>requestStatus := Processing\<rparr>
      else \<lparr>databaseId = Some (id_db db), requestStatus = Processing, data = Map.empty\<rparr>)"
  by (simp add: fetchSchemasForCurrentDatabase_start_def Let_def cancel_request_fields)

lemma start_store_None:
  "currentDatabase s = None \<Longrightarrow>
   schemasStore (fetchSchemasForCurrentDatabase_start s) = makeEmptySchemasData"
  by (simp add: fetchSchemasForCurrentDatabase_start_def Let_def cancel_request_fields)

lemma fetch_run_store:
  "currentDatabase s = Some db \<Longrightarrow>
   fetchSchemasForCurrentDatabase gem list s =
     (Inr (), (fetchSchemasForCurrentDatabase_start s)
        \<lparr>schemasStore := snd (fetchSchemasForCurrentDatabase_resume gem db (list (id_db db))
             (schemasStore (fetchSchemasForCurrentDatabase_start s))),
         requests := (requests (fetchSchemasForCurrentDatabase_start s))[length (requests s) :=
                         \<lparr>request_database = db, promise_state = Settled\<rparr>]\<rparr>)"
  by (simp add: fetchSchemasForCurrentDatabase_def fetchSchemasForCurrentDatabase_resume_def
        Let_def split: sum.splits)

lemma start_requests_old:
  "i < length (requests s) \<Longrightarrow>
   requests (fetchSchemasForCurrentDatabase_start s) ! i = requests (cancel_request s) ! i"
  by (simp add: fetchSchemasForCurrentDatabase_start_def Let_def nth_append cancel_request_fields
        split: option.splits)

lemma start_length:
  "length (requests (fetchSchemasForCurrentDatabase_start s)) =
     (case currentDatabase s of None \<Rightarrow> length (requests s) | Some _ \<Rightarrow> Suc (length (requests s)))"
  by (simp add: fetchSchemasForCurrentDatabase_start_def Let_def cancel_request_fields
        split: option.splits)

lemma start_request:
  "request (fetchSchemasForCurrentDatabase_start s) =
     (case currentDatabase s of None \<Rightarrow> request s | Some _ \<Rightarrow> Some (length (requests s)))"
  by (simp add: fetchSchemasForCurrentDatabase_start_def Let_def cancel_request_fields
        split: option.splits)

lemma start_cancels_old:
  "only_request_pending s \<Longrightarrow> i < length (requests s) \<Longrightarrow>
   promise_state (requests (fetchSchemasForCurrentDatabase_start s) ! i) \<noteq> Pending"
  by (simp add: start_requests_old cancel_request_none_pending)

lemma start_cancels_pending:
  "only_request_pending s \<Longrightarrow> i < length (requests s) \<Longrightarrow>
   promise_state (requests s ! i) = Pending \<Longrightarrow>
   promise_state (requests (fetchSchemasForCurrentDatabase_start s) ! i) = Cancelled"
  by (simp add: start_requests_old cancel_request_nth only_request_pending_def)

lemma start_only_request_pending:
  assumes "only_request_pending s"
  shows "only_request_pending (fetchSchemasForCurrentDatabase_start s)"
  unfolding only_request_pending_def
proof (intro allI impI)
  fix i
  assume i: "i < length (requests (fetchSchemasForCurrentDatabase_start s))"
    and p: "promise_state (requests (fetchSchemasForCurrentDatabase_start s) ! i) = Pending"
  have "\<not> i < length (requests s)"
    using start_cancels_old [OF assms] p by blast
  with i show "request (fetchSchemasForCurrentDatabase_start s) = Some i"
    by (auto simp add: start_length start_request split: option.splits)
qed

lemma only_request_pending_cong:
  "requests s' = requests s \<Longrightarrow> request s' = request s \<Longrightarrow>
   only_request_pending s' = only_request_pending s"
  by (simp add: only_request_pending_def)

lemma derived_only_request_pending:
  assumes "only_request_pending s"
  shows "only_request_pending (schemas_derived cd s)"
proof -
  have a: "only_request_pending (fetchSchemasForCurrentDatabase_start s)"
    using assms by (rule start_only_request_pending)
  have b: "only_request_pending ((fetchSchemasForCurrentDatabase_start s)\<lparr>preload := False\<rparr>)"
    using a by (simp add: only_request_pending_def)
  have c: "only_request_pending (s\<lparr>schemasStore := v, preload := False\<rparr>)" for v
    using assms by (simp add: only_request_pending_def)
  show ?thesis
    unfolding schemas_derived_def
    by (simp add: a b c assms split: option.splits)
qed

lemma step_only_request_pending:
  "step gem cd ev s = Some s' \<Longrightarrow> only_request_pending s \<Longrightarrow> only_request_pending s'"
proof (cases ev)
  case CallFetch
  assume "step gem cd ev s = Some s'" "only_request_pending s"
  with CallFetch show ?thesis by (auto simp: start_only_request_pending)
next
  case (ListSettles i outcome)
  assume "step gem cd ev s = Some s'" "only_request_pending s"
  with ListSettles show ?thesis
    by (auto simp add: only_request_pending_def nth_list_update split: if_splits)
next
  case (SwitchDatabase d)
  assume "step gem cd ev s = Some s'" "only_request_pending s"
  with SwitchDatabase show ?thesis
    using derived_only_request_pending [of "s\<lparr>currentDatabase := d\<rparr>" cd]
    by (auto simp add: only_request_pending_cong [of "s\<lparr>currentDatabase := d\<rparr>" s])
next
  case (DatabaseChanges d)
  assume "step gem cd ev s = Some s'" "only_request_pending s"
  with DatabaseChanges show ?thesis
    by (auto simp add: only_request_pending_def)
next
  case (CreateSettles db props outcome)
  assume "step gem cd ev s = Some s'" "only_request_pending s"
  with CreateSettles show ?thesis
    by (auto simp add: only_request_pending_def)
next
  case (DeleteSettles sc outcome)
  assume "step gem cd ev s = Some s'" "only_request_pending s"
  with DeleteSettles show ?thesis
    by (auto simp add: only_request_pending_def)
qed

lemma run_only_request_pending:
  "run gem cd evs s = Some s' \<Longrightarrow> only_request_pending s \<Longrightarrow> only_request_pending s'"
  by (induction evs arbitrary: s) (auto split: option.splits dest: step_only_request_pending)

lemma initial_only_request_pending: "only_request_pending (initial db)"
  by (simp add: only_request_pending_def initial_def)

lemma distinct_all_equal: "distinct xs \<Longrightarrow> \<forall>x\<in>set xs. x = a \<Longrightarrow> length xs \<le> 1"
proof -
  assume d: "distinct xs" and a: "\<forall>x\<in>set xs. x = a"
  then have "set xs \<subseteq> {a}" by auto
  then have "card (set xs) \<le> card {a}" by (intro card_mono) auto
  with d show ?thesis by (simp add: distinct_card)
qed

lemma in_flight_at_most_one: "only_request_pending s \<Longrightarrow> length (in_flight s) \<le> 1"
proof -
  assume inv: "only_request_pending s"
  show ?thesis
  proof (cases "request s")
    case None
    with inv have "in_flight s = []"
      by (auto simp add: in_flight_def only_request_pending_def filter_empty_conv)
    then show ?thesis by simp
  next
    case (Some j)
    with inv have "\<forall>x\<in>set (in_flight s). x = j"
      by (auto simp add: in_flight_def only_request_pending_def)
    moreover have "distinct (in_flight s)" by (simp add: in_flight_def)
    ultimately show ?thesis by (rule distinct_all_equal [rotated])
  qed
qed

subsection \<open>Cancelled requests and changes of the active database\<close>

lemma derived_requests:
  "requests (schemas_derived cd s) = requests s \<or>
   requests (schemas_derived cd s) = requests (fetchSchemasForCurrentDatabase_start s)"
  by (simp add: schemas_derived_def split: option.splits)

lemma derived_fetches:
  assumes "if databaseId (schemasStore s) \<noteq> map_option id_db (currentDatabase s)
           then use_preload cd s = None
           else is_failure (requestStatus (schemasStore s))"
  shows "requests (schemas_derived cd s) = requests (fetchSchemasForCurrentDatabase_start s)"
  using assms by (simp add: schemas_derived_def split: if_splits)

lemma start_keeps_cancelled:
  assumes "i < length (requests s)" and "promise_state (requests s ! i) = Cancelled"
  shows "promise_state (requests (fetchSchemasForCurrentDatabase_start s) ! i) = Cancelled"
  using assms by (simp add: start_requests_old cancel_request_nth)

lemma start_length_mono:
  "length (requests s) \<le> length (requests (fetchSchemasForCurrentDatabase_start s))"
  by (simp add: start_length split: option.splits)

lemma step_keeps_cancelled:
  assumes "step gem cd ev s = Some s'"
    and "i < length (requests s)" and "promise_state (requests s ! i) = Cancelled"
  shows "i < length (requests s') \<and> promise_state (requests s' ! i) = Cancelled \<and>
         (\<forall>outcome. ev \<noteq> ListSettles i outcome)"
proof (cases ev)
  case CallFetch
  with assms show ?thesis
    using start_length_mono [of s] start_keeps_cancelled [of i s] by auto
next
  case (ListSettles j outcome)
  with assms have "j \<noteq> i" by (auto split: if_splits)
  with ListSettles assms show ?thesis
    by (auto split: if_splits)
next
  case (SwitchDatabase d)
  let ?s = "s\<lparr>currentDatabase := d\<rparr>"
  have "requests ?s = requests s" by simp
  with assms have "i < length (requests ?s)" "promise_state (requests ?s ! i) = Cancelled"
    by simp_all
  then have "i < length (requests (fetchSchemasForCurrentDatabase_start ?s))"
    "promise_state (requests (fetchSchemasForCurrentDatabase_start ?s) ! i) = Cancelled"
    using start_length_mono [of ?s] start_keeps_cancelled [of i ?s] by simp_all
  with derived_requests [of cd ?s] assms SwitchDatabase show ?thesis
    by auto
next
  case (DatabaseChanges d)
  with assms show ?thesis by auto
next
  case (CreateSettles db props outcome)
  with assms show ?thesis by auto
next
  case (DeleteSettles sc outcome)
  with assms show ?thesis by auto
qed

lemma run_keeps_cancelled:
  "run gem cd evs s = Some s' \<Longrightarrow> i < length (requests s) \<Longrightarrow>
   promise_state (requests s ! i) = Cancelled \<Longrightarrow>
   i < length (requests s') \<and> promise_state (requests s' ! i) = Cancelled \<and>
   (\<forall>outcome. ListSettles i outcome \<notin> set evs)"
proof (induction evs arbitrary: s)
  case Nil
  then show ?case by simp
next
  case (Cons ev evs)
  from Cons.prems(1) obtain s1 where s1: "step gem cd ev s = Some s1"
    and r: "run gem cd evs s1 = Some s'"
    by (auto split: option.splits)
  from step_keeps_cancelled [OF s1 Cons.prems(2) Cons.prems(3)]
  have k: "i < length (requests s1)" "promise_state (requests s1 ! i) = Cancelled"
    "\<forall>outcome. ev \<noteq> ListSettles i outcome"
    by simp_all
  from Cons.IH [OF r k(1) k(2)] k(3) show ?case by auto
qed

lemma switch_cancels_pending:
  assumes inv: "only_request_pending s"
    and f: "if databaseId (schemasStore s) \<noteq> map_option id_db d
           then use_preload cd (s\<lparr>currentDatabase := d\<rparr>) = None
           else is_failure (requestStatus (schemasStore s))"
    and st: "step gem cd (SwitchDatabase d) s = Some s'"
    and i: "i < length (requests s)" "promise_state (requests s ! i) = Pending"
  shows "promise_state (requests s' ! i) = Cancelled"
proof -
  let ?s = "s\<lparr>currentDatabase := d\<rparr>"
  have inv': "only_request_pending ?s"
    using inv by (simp add: only_request_pending_def)
  have "requests s' = requests (fetchSchemasForCurrentDatabase_start ?s)"
    using st f derived_fetches [of ?s cd] by simp
  moreover have "promise_state (requests (fetchSchemasForCurrentDatabase_start ?s) ! i) = Cancelled"
    using start_cancels_pending [OF inv', of i] i by simp
  ultimately show ?thesis by simp
qed

lemma start_none_in_flight:
  assumes "only_request_pending s" and "currentDatabase s = None"
  shows "in_flight (fetchSchemasForCurrentDatabase_start s) = []"
  using assms start_cancels_old [OF assms(1)]
  by (simp add: in_flight_def filter_empty_conv start_length)

subsection \<open>The outcome of the list call and the preloaded data\<close>

lemma resume_databaseId:
  "databaseId (snd (fetchSchemasForCurrentDatabase_resume gem db outcome v)) = Some (id_db db)"
  by (cases outcome)
     (simp_all add: fetchSchemasForCurrentDatabase_resume_def setSchemasInStore_fields)

lemma derived_keeps_requests:
  assumes "\<not> (if databaseId (schemasStore s) \<noteq> map_option id_db (currentDatabase s)
              then use_preload cd s = None
              else is_failure (requestStatus (schemasStore s)))"
  shows "requests (schemas_derived cd s) = requests s"
  using assms by (auto simp add: schemas_derived_def split: if_splits option.splits)

subsection \<open>Ownership of the cached schemas\<close>

lemma schemas_belong_makeEmpty: "schemas_belong makeEmptySchemasData"
  by (simp add: schemas_belong_def makeEmptySchemasData_def)

lemma schemas_belong_set: "schemas_belong (setSchemasInStore db rs v)"
proof -
  have "\<And>k sc. data (setSchemasInStore db rs v) k = Some sc \<Longrightarrow> database sc = db"
  proof -
    fix k sc
    assume "data (setSchemasInStore db rs v) k = Some sc"
    then obtain r where "sc = new_Schema db r"
      using fold_set_entry [of "new_Schema db" rs Map.empty k sc]
      by (auto simp add: setSchemasInStore_def)
    then show "database sc = db" by (simp add: new_Schema_def)
  qed
  then show ?thesis
    by (simp add: schemas_belong_def setSchemasInStore_def)
qed

lemma schemas_belong_update:
  "schemas_belong v \<Longrightarrow> schemas_belong (updateSchemaInStore db (new_Schema db r) v)"
  by (fastforce simp add: schemas_belong_def updateSchemaInStore_def new_Schema_def)

lemma schemas_belong_remove:
  "schemas_belong v \<Longrightarrow> schemas_belong (removeSchemaInStore db sc v)"
  by (fastforce simp add: schemas_belong_def removeSchemaInStore_def)

lemma schemas_belong_create:
  "schemas_belong v \<Longrightarrow> schemas_belong (snd (createSchema add db props v))"
  by (simp add: createSchema_def schemas_belong_update split: sum.splits)

lemma schemas_belong_delete:
  "schemas_belong v \<Longrightarrow> schemas_belong (snd (deleteSchema delete sc v))"
  by (simp add: deleteSchema_def schemas_belong_remove split: sum.splits)

lemma schemas_belong_resume:
  "schemas_belong v \<Longrightarrow>
   schemas_belong (snd (fetchSchemasForCurrentDatabase_resume gem db outcome v))"
proof (cases outcome)
  case (Inl err)
  assume "schemas_belong v"
  with Inl show ?thesis
    by (fastforce simp add: fetchSchemasForCurrentDatabase_resume_def schemas_belong_def)
next
  case (Inr rawSchemas)
  then show ?thesis
    by (simp add: fetchSchemasForCurrentDatabase_resume_def schemas_belong_set)
qed

lemma schemas_belong_start:
  assumes "schemas_belong (schemasStore s)"
  shows "schemas_belong (schemasStore (fetchSchemasForCurrentDatabase_start s))"
proof (cases "currentDatabase s")
  case None
  then show ?thesis by (simp add: start_store_None schemas_belong_makeEmpty)
next
  case (Some db)
  with assms show ?thesis by (fastforce simp add: start_store_Some schemas_belong_def)
qed

lemma schemas_belong_derived:
  assumes "schemas_belong (schemasStore s)"
  shows "schemas_belong (schemasStore (schemas_derived cd s))"
proof -
  have a: "schemas_belong (schemasStore (fetchSchemasForCurrentDatabase_start s))"
    using assms by (rule schemas_belong_start)
  show ?thesis
    unfolding schemas_derived_def
    by (simp add: a assms schemas_belong_set split: option.splits)
qed

lemma step_schemas_belong:
  assumes "step gem cd ev s = Some s'" and "schemas_belong (schemasStore s)"
  shows "schemas_belong (schemasStore s')"
proof (cases ev)
  case CallFetch
  with assms show ?thesis by (auto simp: schemas_belong_start)
next
  case (ListSettles i outcome)
  with assms show ?thesis
    by (auto simp add: schemas_belong_resume split: if_splits)
next
  case (SwitchDatabase d)
  with assms show ?thesis
    using schemas_belong_derived [of "s\<lparr>currentDatabase := d\<rparr>" cd]
    by auto
next
  case (DatabaseChanges d)
  with assms show ?thesis by auto
next
  case (CreateSettles db props outcome)
  with assms show ?thesis
    by (auto simp add: schemas_belong_create)
next
  case (DeleteSettles sc outcome)
  with assms show ?thesis
    by (auto simp add: schemas_belong_delete)
qed

lemma run_schemas_belong:
  "run gem cd evs s = Some s' \<Longrightarrow> schemas_belong (schemasStore s) \<Longrightarrow>
   schemas_belong (schemasStore s')"
  by (induction evs arbitrary: s) (auto split: option.splits dest: step_schemas_belong)

lemma initial_schemas_belong: "schemas_belong (schemasStore (initial db))"
  by (simp add: initial_def schemas_belong_makeEmpty)

subsection \<open>Facts about the example values\<close>

lemma example_fields:
  "id_db database_one = 1" "id_db database_two = 2"
  "raw_oid raw_five = 5" "raw_oid raw_six = 6"
  "databaseId store_one = Some 1"
  "data store_one 6 = None"
  by (simp_all add: database_one_def database_two_def raw_five_def raw_six_def store_one_def)

lemma initial_fields:
  "schemasStore (initial db) = makeEmptySchemasData"
  "request (initial db) = None"
  "requests (initial db) = []"
  "preload (initial db) = True"
  "currentDatabase (initial db) = db"
  by (simp_all add: initial_def)

lemma run_two_requests:
  "run gem preloaded_one [CallFetch, SwitchDatabase (Some database_two)]
     (initial (Some database_one)) = Some two_requests"
  by (simp add: two_requests_def initial_def fetchSchemasForCurrentDatabase_start_def
        cancel_request_def cancel_def schemas_derived_def use_preload_def preloaded_one_def
        makeEmptySchemasData_def example_fields)

lemma run_fetched_one:
  "run gem cd [CallFetch, ListSettles 0 (Inr [raw_five])] (initial (Some database_one)) =
     Some fetched_one"
  by (simp add: fetched_one_def initial_def fetchSchemasForCurrentDatabase_start_def
        cancel_request_def fetchSchemasForCurrentDatabase_resume_def setSchemasInStore_def
        makeEmptySchemasData_def example_fields)

lemma run_one_pending:
  "run gem cd [CallFetch] (initial (Some database_one)) =
     Some (pending_no_database\<lparr>currentDatabase := Some database_one\<rparr>)"
  by (simp add: pending_no_database_def initial_def fetchSchemasForCurrentDatabase_start_def
        cancel_request_def makeEmptySchemasData_def example_fields)

lemma run_pending_two:
  "run gem cd [DatabaseChanges (Some database_two), CallFetch] (initial (Some database_one)) =
     Some pending_two"
  by (simp add: pending_two_def initial_def fetchSchemasForCurrentDatabase_start_def
        cancel_request_def makeEmptySchemasData_def example_fields)

lemma step_seeded_one:
  "step gem preloaded_one (SwitchDatabase (Some database_one)) pending_two = Some seeded_one"
  by (simp add: pending_two_def seeded_one_def schemas_derived_def use_preload_def
        preloaded_one_def setSchemasInStore_def example_fields)

lemma step_overwritten_two:
  "step gem cd (ListSettles 0 (Inr [raw_six])) seeded_one = Some overwritten_two"
  by (simp add: seeded_one_def overwritten_two_def fetchSchemasForCurrentDatabase_resume_def
        setSchemasInStore_def example_fields)

section \<open>The claims\<close>

subsection \<open>C1: a successful fetch replaces the store\<close>

text \<open>
  Claim C1. A run of \<^verbatim>\<open>fetchSchemasForCurrentDatabase\<close> with a current database \<open>db\<close>
  whose list call returns \<open>rawSchemas\<close> returns normally and leaves a store whose
  \<open>databaseId\<close> is the id of \<open>db\<close>, whose status is success, whose keys are exactly the
  oids of the returned records, and in which every entry is the schema built from a
  returned record and stored under that record's oid; when the returned oids are pairwise
  distinct (an oid is the unique identifier of a schema) every returned record is in the
  map under its oid. The store is replaced wholesale: the result is the same whatever
  value the store held when the list call returned.
\<close>

theorem fetch_success_replaces_store:
  assumes "currentDatabase s = Some db" and "list (id_db db) = Inr rawSchemas"
  shows "fst (fetchSchemasForCurrentDatabase gem list s) = Inr () \<and>
    databaseId (schemasStore (snd (fetchSchemasForCurrentDatabase gem list s))) = Some (id_db db) \<and>
    requestStatus (schemasStore (snd (fetchSchemasForCurrentDatabase gem list s))) = Success \<and>
    dom (data (schemasStore (snd (fetchSchemasForCurrentDatabase gem list s)))) =
      raw_oid ` set rawSchemas \<and>
    (\<forall>k sc. data (schemasStore (snd (fetchSchemasForCurrentDatabase gem list s))) k = Some sc \<longrightarrow>
       (\<exists>r\<in>set rawSchemas. raw_oid r = k \<and> sc = new_Schema db r)) \<and>
    (distinct (map raw_oid rawSchemas) \<longrightarrow>
       (\<forall>r\<in>set rawSchemas.
          data (schemasStore (snd (fetchSchemasForCurrentDatabase gem list s))) (raw_oid r) =
            Some (new_Schema db r))) \<and>
    schemasStore (snd (fetchSchemasForCurrentDatabase gem list s)) =
      snd (fetchSchemasForCurrentDatabase_resume gem db (Inr rawSchemas) value)"
proof -
  let ?st = "schemasStore (snd (fetchSchemasForCurrentDatabase gem list s))"
  have "?st = setSchemasInStore db rawSchemas
                (schemasStore (fetchSchemasForCurrentDatabase_start s))"
    using assms by (simp add: fetch_run_store fetchSchemasForCurrentDatabase_resume_def)
  then have st: "?st = setSchemasInStore db rawSchemas value"
    by (simp only: setSchemasInStore_def)
  have res: "fst (fetchSchemasForCurrentDatabase gem list s) = Inr ()"
    using assms by (simp add: fetch_run_store)
  have "snd (fetchSchemasForCurrentDatabase_resume gem db (Inr rawSchemas) value) =
          setSchemasInStore db rawSchemas value"
    by (simp add: fetchSchemasForCurrentDatabase_resume_def)
  with st res show ?thesis
    using setSchemasInStore_entry [of db rawSchemas "value"]
          setSchemasInStore_distinct [of rawSchemas _ db "value"]
    by (simp add: setSchemasInStore_fields setSchemasInStore_dom)
qed

theorem fetch_success_replaces_store_witness:
  "currentDatabase (initial (Some database_one)) = Some database_one \<and>
   distinct (map raw_oid [raw_five, raw_six]) \<and>
   databaseId (schemasStore (snd (fetchSchemasForCurrentDatabase (\<lambda>e::string. e)
      (\<lambda>_. Inr [raw_five, raw_six]) (initial (Some database_one))))) = Some 1 \<and>
   requestStatus (schemasStore (snd (fetchSchemasForCurrentDatabase (\<lambda>e::string. e)
      (\<lambda>_. Inr [raw_five, raw_six]) (initial (Some database_one))))) = Success \<and>
   data (schemasStore (snd (fetchSchemasForCurrentDatabase (\<lambda>e::string. e)
      (\<lambda>_. Inr [raw_five, raw_six]) (initial (Some database_one))))) 5 =
     Some (new_Schema database_one raw_five) \<and>
   data (schemasStore (snd (fetchSchemasForCurrentDatabase (\<lambda>e::string. e)
      (\<lambda>_. Inr [raw_five, raw_six]) (initial (Some database_one))))) 6 =
     Some (new_Schema database_one raw_six) \<and>
   dom (data (schemasStore (snd (fetchSchemasForCurrentDatabase (\<lambda>e::string. e)
      (\<lambda>_. Inr [raw_five, raw_six]) (initial (Some database_one)))))) = {5, 6}"
proof -
  let ?st = "schemasStore (snd (fetchSchemasForCurrentDatabase (\<lambda>e::string. e)
      (\<lambda>_. Inr [raw_five, raw_six]) (initial (Some database_one))))"
  have h: "currentDatabase (initial (Some database_one)) = Some database_one"
    by (simp add: initial_fields)
  have d: "distinct (map raw_oid [raw_five, raw_six])"
    by (simp add: example_fields)
  have l: "(\<lambda>_. Inr [raw_five, raw_six] :: string + RawSchema list) (id_db database_one) =
          Inr [raw_five, raw_six]"
    by simp
  note t = fetch_success_replaces_store [of "initial (Some database_one)" database_one
          "\<lambda>_. Inr [raw_five, raw_six]" "[raw_five, raw_six]" "\<lambda>e::string. e" store_one,
          OF h l]
  from t have a: "databaseId ?st = Some (id_db database_one)" "requestStatus ?st = Success"
    by blast+
  from t have c: "dom (data ?st) = raw_oid ` set [raw_five, raw_six]"
    by blast
  from t d have b: "\<forall>r\<in>set [raw_five, raw_six]. data ?st (raw_oid r) =
                      Some (new_Schema database_one r)"
    by blast
  from a b c h d show ?thesis
    by (simp add: example_fields)
qed

subsection \<open>C2: a failed fetch\<close>

text \<open>
  Claim C2. When the list call fails with \<open>err\<close>, the function returns normally and the
  status becomes failure with the one message \<open>getErrorMessage err\<close>. If the store's
  \<open>databaseId\<close> is still the id of the fetched database, nothing else changes (the data map
  keeps its contents); otherwise the store becomes an empty map for the fetched database.
  For a whole run with nothing in between, the data kept is the data the store had before
  the run when it was already for that database, and the empty map otherwise.
\<close>

theorem fetch_failure_records_error:
  "requestStatus (snd (fetchSchemasForCurrentDatabase_resume gem db (Inl err) value)) =
     Failure [gem err] \<and>
   fst (fetchSchemasForCurrentDatabase_resume gem db (Inl err) value) = Inr () \<and>
   (databaseId value = Some (id_db db) \<longrightarrow>
      snd (fetchSchemasForCurrentDatabase_resume gem db (Inl err) value) =
        value\<lparr>requestStatus := Failure [gem err]\<rparr>) \<and>
   (databaseId value \<noteq> Some (id_db db) \<longrightarrow>
      snd (fetchSchemasForCurrentDatabase_resume gem db (Inl err) value) =
        \<lparr>databaseId = Some (id_db db), requestStatus = Failure [gem err], data = Map.empty\<rparr>) \<and>
   (currentDatabase s = Some db \<and> list (id_db db) = Inl err \<longrightarrow>
      schemasStore (snd (fetchSchemasForCurrentDatabase gem list s)) =
        \<lparr>databaseId = Some (id_db db), requestStatus = Failure [gem err],
         data = (if databaseId (schemasStore s) = Some (id_db db)
                 then data (schemasStore s) else Map.empty)\<rparr>)"
  by (simp add: fetch_run_store start_store_Some fetchSchemasForCurrentDatabase_resume_def)

theorem fetch_failure_records_error_witness:
  "databaseId store_one = Some (id_db database_one) \<and>
   databaseId store_one \<noteq> Some (id_db database_two) \<and>
   currentDatabase (initial (Some database_one)) = Some database_one \<and>
   snd (fetchSchemasForCurrentDatabase_resume (\<lambda>e::string. e) database_one
          (Inl ''timeout'') store_one) = store_one\<lparr>requestStatus := Failure [''timeout'']\<rparr> \<and>
   snd (fetchSchemasForCurrentDatabase_resume (\<lambda>e::string. e) database_two
          (Inl ''timeout'') store_one) =
     \<lparr>databaseId = Some 2, requestStatus = Failure [''timeout''], data = Map.empty\<rparr> \<and>
   schemasStore (snd (fetchSchemasForCurrentDatabase (\<lambda>e::string. e) (\<lambda>_. Inl ''timeout'')
      (initial (Some database_one)))) =
     \<lparr>databaseId = Some 1, requestStatus = Failure [''timeout''], data = Map.empty\<rparr>"
proof -
  have m: "databaseId store_one = Some (id_db database_one)"
    and n: "databaseId store_one \<noteq> Some (id_db database_two)"
    by (simp_all add: example_fields)
  have h: "currentDatabase (initial (Some database_one)) = Some database_one"
    by (simp add: initial_fields)
  have e: "databaseId (schemasStore (initial (Some database_one))) \<noteq> Some (id_db database_one)"
    by (simp add: initial_fields makeEmptySchemasData_def)
  note t1 = fetch_failure_records_error [of "\<lambda>e::string. e" database_one "''timeout''" store_one
          "initial (Some database_one)" "\<lambda>_. Inl ''timeout''"]
  note t2 = fetch_failure_records_error [of "\<lambda>e::string. e" database_two "''timeout''" store_one
          "initial (Some database_one)" "\<lambda>_. Inl ''timeout''"]
  from t1 m have a: "snd (fetchSchemasForCurrentDatabase_resume (\<lambda>e::string. e) database_one
          (Inl ''timeout'') store_one) = store_one\<lparr>requestStatus := Failure [''timeout'']\<rparr>"
    by blast
  from t2 n have b: "snd (fetchSchemasForCurrentDatabase_resume (\<lambda>e::string. e) database_two
          (Inl ''timeout'') store_one) =
     \<lparr>databaseId = Some (id_db database_two), requestStatus = Failure [''timeout''],
      data = Map.empty\<rparr>"
    by blast
  from t1 h have c: "schemasStore (snd (fetchSchemasForCurrentDatabase (\<lambda>e::string. e)
      (\<lambda>_. Inl ''timeout'') (initial (Some database_one)))) =
        \<lparr>databaseId = Some (id_db database_one), requestStatus = Failure [''timeout''],
         data = (if databaseId (schemasStore (initial (Some database_one))) =
                    Some (id_db database_one)
                 then data (schemasStore (initial (Some database_one))) else Map.empty)\<rparr>"
    by simp
  from a b c e m n h show ?thesis
    by (simp add: example_fields)
qed

subsection \<open>C3: which mutations check the database id\<close>

text \<open>
  Claim C3, as amended. The mutations made by \<^verbatim>\<open>createSchema\<close> and \<^verbatim>\<open>deleteSchema\<close>
  (\<^verbatim>\<open>updateSchemaInStore\<close>, \<^verbatim>\<open>removeSchemaInStore\<close>) check that the store's \<open>databaseId\<close> is the
  id of the operation's database and leave the store unchanged when it is not. The
  mutations made with the outcome of the list call are not guarded. When the store's
  \<open>databaseId\<close> is not the id of the fetched database, a returned list still replaces the
  store by \<^verbatim>\<open>setSchemasInStore\<close>: the \<open>databaseId\<close> becomes the fetched id, the status success,
  and the map holds the returned records under their oids. A failed list call replaces the
  store by the empty map for the fetched database with status failure. Either way the
  store is modified.
\<close>

theorem only_create_delete_check_databaseId:
  assumes "databaseId value \<noteq> Some (id_db db)"
  shows "updateSchemaInStore db schema value = value \<and>
     removeSchemaInStore db schema value = value \<and>
     snd (createSchema add db props value) = value \<and>
     (database schema = db \<longrightarrow> snd (deleteSchema delete schema value) = value) \<and>
     snd (fetchSchemasForCurrentDatabase_resume gem db (Inr rawSchemas) value) =
       setSchemasInStore db rawSchemas value \<and>
     databaseId (setSchemasInStore db rawSchemas value) = Some (id_db db) \<and>
     requestStatus (setSchemasInStore db rawSchemas value) = Success \<and>
     dom (data (setSchemasInStore db rawSchemas value)) = raw_oid ` set rawSchemas \<and>
     (\<forall>k sc. data (setSchemasInStore db rawSchemas value) k = Some sc \<longrightarrow>
        (\<exists>r\<in>set rawSchemas. raw_oid r = k \<and> sc = new_Schema db r)) \<and>
     setSchemasInStore db rawSchemas value \<noteq> value \<and>
     snd (fetchSchemasForCurrentDatabase_resume gem db (Inl err) value) =
       \<lparr>databaseId = Some (id_db db), requestStatus = Failure [gem err], data = Map.empty\<rparr> \<and>
     snd (fetchSchemasForCurrentDatabase_resume gem db (Inl err) value) \<noteq> value"
proof -
  note n = assms
  have a: "updateSchemaInStore db schema value = value"
    "removeSchemaInStore db schema value = value"
    using n by (simp_all add: updateSchemaInStore_def removeSchemaInStore_def)
  have b: "snd (createSchema add db props value) = value"
    using n by (simp add: createSchema_def updateSchemaInStore_def split: sum.splits)
  have c: "database schema = db \<longrightarrow> snd (deleteSchema delete schema value) = value"
    using n by (simp add: deleteSchema_def removeSchemaInStore_def split: sum.splits)
  have d: "snd (fetchSchemasForCurrentDatabase_resume gem db (Inr rawSchemas) value) =
             setSchemasInStore db rawSchemas value"
    by (simp add: fetchSchemasForCurrentDatabase_resume_def)
  have e: "databaseId (setSchemasInStore db rawSchemas value) = Some (id_db db)"
    "requestStatus (setSchemasInStore db rawSchemas value) = Success"
    "dom (data (setSchemasInStore db rawSchemas value)) = raw_oid ` set rawSchemas"
    by (simp_all add: setSchemasInStore_fields setSchemasInStore_dom)
  have f: "\<forall>k sc. data (setSchemasInStore db rawSchemas value) k = Some sc \<longrightarrow>
        (\<exists>r\<in>set rawSchemas. raw_oid r = k \<and> sc = new_Schema db r)"
    using setSchemasInStore_entry [of db rawSchemas "value"] by blast
  from n e(1) have g: "setSchemasInStore db rawSchemas value \<noteq> value"
    by metis
  have h: "snd (fetchSchemasForCurrentDatabase_resume gem db (Inl err) value) =
       \<lparr>databaseId = Some (id_db db), requestStatus = Failure [gem err], data = Map.empty\<rparr>"
    using n by (simp add: fetchSchemasForCurrentDatabase_resume_def)
  have "databaseId (snd (fetchSchemasForCurrentDatabase_resume gem db (Inl err) value)) =
          Some (id_db db)"
    by (rule resume_databaseId)
  with n have i: "snd (fetchSchemasForCurrentDatabase_resume gem db (Inl err) value) \<noteq> value"
    by metis
  from a b c d e f g h i show ?thesis by blast
qed

theorem only_create_delete_check_databaseId_witness:
  "databaseId store_one \<noteq> Some (id_db database_two) \<and>
   updateSchemaInStore database_two (new_Schema database_two raw_six) store_one = store_one \<and>
   removeSchemaInStore database_two (new_Schema database_two raw_six) store_one = store_one \<and>
   snd (createSchema (add_returns raw_six) database_two props_public store_one) = store_one \<and>
   snd (fetchSchemasForCurrentDatabase_resume error_text database_two (Inr [raw_six]) store_one) =
     setSchemasInStore database_two [raw_six] store_one \<and>
   databaseId (setSchemasInStore database_two [raw_six] store_one) = Some 2 \<and>
   dom (data (setSchemasInStore database_two [raw_six] store_one)) = {6} \<and>
   setSchemasInStore database_two [raw_six] store_one \<noteq> store_one \<and>
   snd (fetchSchemasForCurrentDatabase_resume error_text database_two (Inl ''timeout'') store_one) =
     \<lparr>databaseId = Some 2, requestStatus = Failure [''timeout''], data = Map.empty\<rparr>"
proof -
  have n: "databaseId store_one \<noteq> Some (id_db database_two)"
    by (simp add: example_fields)
  note t = only_create_delete_check_databaseId [OF n, of "new_Schema database_two raw_six"
          "add_returns raw_six" props_public delete_succeeds error_text "[raw_six]" "''timeout''"]
  from t have a:
    "updateSchemaInStore database_two (new_Schema database_two raw_six) store_one = store_one"
    "removeSchemaInStore database_two (new_Schema database_two raw_six) store_one = store_one"
    "snd (createSchema (add_returns raw_six) database_two props_public store_one) = store_one"
    by blast+
  from t have b:
    "snd (fetchSchemasForCurrentDatabase_resume error_text database_two (Inr [raw_six])
       store_one) = setSchemasInStore database_two [raw_six] store_one"
    "setSchemasInStore database_two [raw_six] store_one \<noteq> store_one"
    by blast+
  from t have c:
    "databaseId (setSchemasInStore database_two [raw_six] store_one) =
       Some (id_db database_two)"
    "dom (data (setSchemasInStore database_two [raw_six] store_one)) =
       raw_oid ` set [raw_six]"
    by blast+
  from t have d:
    "snd (fetchSchemasForCurrentDatabase_resume error_text database_two (Inl ''timeout'')
       store_one) =
     \<lparr>databaseId = Some (id_db database_two),
      requestStatus = Failure [error_text ''timeout''], data = Map.empty\<rparr>"
    by blast
  from c have c': "databaseId (setSchemasInStore database_two [raw_six] store_one) = Some 2"
    "dom (data (setSchemasInStore database_two [raw_six] store_one)) = {6}"
    by (simp_all add: example_fields)
  from d have d':
    "snd (fetchSchemasForCurrentDatabase_resume error_text database_two (Inl ''timeout'')
       store_one) =
     \<lparr>databaseId = Some 2, requestStatus = Failure [''timeout''], data = Map.empty\<rparr>"
    by (simp add: example_fields error_text_def)
  from n a b c' d' show ?thesis by blast
qed

text \<open>
  Claim C3 as stated fails: the store is for database 1, the list of database 2 arrives,
  and the store is overwritten.
\<close>

theorem list_result_overwrites_other_database:
  "databaseId store_one \<noteq> Some (id_db database_two) \<and>
   snd (fetchSchemasForCurrentDatabase_resume error_text database_two (Inr [raw_six]) store_one)
     \<noteq> store_one"
proof -
  have "databaseId (snd (fetchSchemasForCurrentDatabase_resume error_text database_two
          (Inr [raw_six]) store_one)) = Some 2"
    by (simp add: resume_databaseId example_fields)
  moreover have "databaseId store_one = Some 1"
    by (simp add: example_fields)
  ultimately show ?thesis
    by (auto simp add: example_fields)
qed

subsection \<open>C4: one list request in flight\<close>

text \<open>
  Claim C4, as amended. In every state the module can reach, at most one list request is
  in flight, and a call of \<^verbatim>\<open>fetchSchemasForCurrentDatabase\<close> leaves none of the earlier
  requests pending. A change of the active database that starts a new fetch (the store is
  for another database and the change is not served from the preloaded data, or the store
  is for this database and its status is failure) cancels the request that was pending. A
  cancelled request stays cancelled and never settles, so it has no effect on the store. A
  change of the active database that starts no fetch (it is served from the preloaded
  data, or the store is already for this database and has not failed, or the callback
  of \<^verbatim>\<open>schemas\<close> does not run) leaves every list request as it was.
\<close>

theorem at_most_one_list_request_in_flight:
  assumes "run gem cd evs (initial db0) = Some s"
  shows "length (in_flight s) \<le> 1 \<and>
    (\<forall>i<length (requests s).
       promise_state (requests (fetchSchemasForCurrentDatabase_start s) ! i) \<noteq> Pending) \<and>
    (\<forall>i<length (requests s). \<forall>d s'.
       (if databaseId (schemasStore s) \<noteq> map_option id_db d
        then use_preload cd (s\<lparr>currentDatabase := d\<rparr>) = None
        else is_failure (requestStatus (schemasStore s))) \<longrightarrow>
       step gem cd (SwitchDatabase d) s = Some s' \<longrightarrow>
       promise_state (requests s ! i) = Pending \<longrightarrow>
       promise_state (requests s' ! i) = Cancelled) \<and>
    (\<forall>d s'.
       \<not> (if databaseId (schemasStore s) \<noteq> map_option id_db d
          then use_preload cd (s\<lparr>currentDatabase := d\<rparr>) = None
          else is_failure (requestStatus (schemasStore s))) \<longrightarrow>
       step gem cd (SwitchDatabase d) s = Some s' \<longrightarrow>
       requests s' = requests s) \<and>
    (\<forall>d s'. step gem cd (DatabaseChanges d) s = Some s' \<longrightarrow> requests s' = requests s) \<and>
    (\<forall>i<length (requests s). \<forall>evs' s'.
       promise_state (requests s ! i) = Cancelled \<longrightarrow>
       run gem cd evs' s = Some s' \<longrightarrow>
       promise_state (requests s' ! i) = Cancelled \<and>
       (\<forall>outcome. ListSettles i outcome \<notin> set evs'))"
proof -
  have inv: "only_request_pending s"
    using assms initial_only_request_pending by (rule run_only_request_pending)
  have a: "length (in_flight s) \<le> 1"
    using inv by (rule in_flight_at_most_one)
  have b: "\<forall>i<length (requests s).
       promise_state (requests (fetchSchemasForCurrentDatabase_start s) ! i) \<noteq> Pending"
    using start_cancels_old [OF inv] by blast
  have c: "\<forall>i<length (requests s). \<forall>d s'.
       (if databaseId (schemasStore s) \<noteq> map_option id_db d
        then use_preload cd (s\<lparr>currentDatabase := d\<rparr>) = None
        else is_failure (requestStatus (schemasStore s))) \<longrightarrow>
       step gem cd (SwitchDatabase d) s = Some s' \<longrightarrow>
       promise_state (requests s ! i) = Pending \<longrightarrow>
       promise_state (requests s' ! i) = Cancelled"
    using switch_cancels_pending [OF inv] by blast
  have d: "\<forall>d s'.
       \<not> (if databaseId (schemasStore s) \<noteq> map_option id_db d
          then use_preload cd (s\<lparr>currentDatabase := d\<rparr>) = None
          else is_failure (requestStatus (schemasStore s))) \<longrightarrow>
       step gem cd (SwitchDatabase d) s = Some s' \<longrightarrow>
       requests s' = requests s"
  proof (intro allI impI)
    fix d s'
    assume nf: "\<not> (if databaseId (schemasStore s) \<noteq> map_option id_db d
          then use_preload cd (s\<lparr>currentDatabase := d\<rparr>) = None
          else is_failure (requestStatus (schemasStore s)))"
      and st: "step gem cd (SwitchDatabase d) s = Some s'"
    from nf have "\<not> (if databaseId (schemasStore (s\<lparr>currentDatabase := d\<rparr>)) \<noteq>
                  map_option id_db (currentDatabase (s\<lparr>currentDatabase := d\<rparr>))
              then use_preload cd (s\<lparr>currentDatabase := d\<rparr>) = None
              else is_failure (requestStatus (schemasStore (s\<lparr>currentDatabase := d\<rparr>))))"
      by (simp split: if_splits)
    then have "requests (schemas_derived cd (s\<lparr>currentDatabase := d\<rparr>)) =
                    requests (s\<lparr>currentDatabase := d\<rparr>)"
      by (rule derived_keeps_requests)
    with st show "requests s' = requests s" by auto
  qed
  have e: "\<forall>d s'. step gem cd (DatabaseChanges d) s = Some s' \<longrightarrow> requests s' = requests s"
    by auto
  have f: "\<forall>i<length (requests s). \<forall>evs' s'.
       promise_state (requests s ! i) = Cancelled \<longrightarrow>
       run gem cd evs' s = Some s' \<longrightarrow>
       promise_state (requests s' ! i) = Cancelled \<and>
       (\<forall>outcome. ListSettles i outcome \<notin> set evs')"
    using run_keeps_cancelled [of gem cd _ s] by blast
  from a b c d e f show ?thesis by blast
qed

theorem at_most_one_list_request_in_flight_witness:
  "run error_text preloaded_one [CallFetch, SwitchDatabase (Some database_two)]
     (initial (Some database_one)) = Some two_requests \<and>
   in_flight two_requests = [1] \<and>
   length (in_flight two_requests) \<le> 1 \<and>
   promise_state (requests (fetchSchemasForCurrentDatabase_start two_requests) ! 1) \<noteq> Pending \<and>
   promise_state (requests two_requests ! 1) = Pending \<and>
   step error_text preloaded_one (SwitchDatabase (Some database_one)) two_requests =
     Some (schemas_derived preloaded_one (two_requests\<lparr>currentDatabase := Some database_one\<rparr>)) \<and>
   promise_state (requests (schemas_derived preloaded_one
      (two_requests\<lparr>currentDatabase := Some database_one\<rparr>)) ! 1) = Cancelled \<and>
   promise_state (requests two_requests ! 0) = Cancelled \<and>
   run error_text preloaded_one [ListSettles 0 (Inr [raw_five])] two_requests = None \<and>
   run error_text preloaded_one [DatabaseChanges (Some database_two), CallFetch]
     (initial (Some database_one)) = Some pending_two \<and>
   step error_text preloaded_one (SwitchDatabase (Some database_one)) pending_two =
     Some seeded_one \<and>
   requests seeded_one = requests pending_two"
proof -
  let ?next = "schemas_derived preloaded_one (two_requests\<lparr>currentDatabase := Some database_one\<rparr>)"
  have r: "run error_text preloaded_one [CallFetch, SwitchDatabase (Some database_two)]
     (initial (Some database_one)) = Some two_requests"
    by (rule run_two_requests)
  note t = at_most_one_list_request_in_flight [OF r]
  have f: "in_flight two_requests = [1]"
    by (simp add: in_flight_def two_requests_def upt_rec)
  have l: "(0::nat) < length (requests two_requests)" "(1::nat) < length (requests two_requests)"
    by (simp_all add: two_requests_def)
  have p: "promise_state (requests two_requests ! 1) = Pending"
    "promise_state (requests two_requests ! 0) = Cancelled"
    by (simp_all add: two_requests_def)
  have g: "if databaseId (schemasStore two_requests) \<noteq> map_option id_db (Some database_one)
        then use_preload preloaded_one (two_requests\<lparr>currentDatabase := Some database_one\<rparr>) = None
        else is_failure (requestStatus (schemasStore two_requests))"
    by (simp add: two_requests_def example_fields use_preload_def preloaded_one_def)
  have st: "step error_text preloaded_one (SwitchDatabase (Some database_one)) two_requests =
              Some ?next"
    by simp
  from t have a: "length (in_flight two_requests) \<le> 1" by blast
  from t l(2) have b:
    "promise_state (requests (fetchSchemasForCurrentDatabase_start two_requests) ! 1) \<noteq> Pending"
    by blast
  from t l(2) g st p(1) have c: "promise_state (requests ?next ! 1) = Cancelled"
    by blast
  from t l(1) p(2) have d: "\<forall>evs' s'.
       run error_text preloaded_one evs' two_requests = Some s' \<longrightarrow>
       (\<forall>outcome. ListSettles 0 outcome \<notin> set evs')"
    by blast
  have e: "run error_text preloaded_one [ListSettles 0 (Inr [raw_five])] two_requests = None"
  proof (cases "run error_text preloaded_one [ListSettles 0 (Inr [raw_five])] two_requests")
    case None
    then show ?thesis .
  next
    case (Some s')
    with d have "(ListSettles 0 (Inr [raw_five]) :: string Event) \<notin>
                   set [ListSettles 0 (Inr [raw_five])]"
      by blast
    then show ?thesis by simp
  qed
  have r2: "run error_text preloaded_one [DatabaseChanges (Some database_two), CallFetch]
     (initial (Some database_one)) = Some pending_two"
    by (rule run_pending_two)
  note t2 = at_most_one_list_request_in_flight [OF r2]
  have g2: "\<not> (if databaseId (schemasStore pending_two) \<noteq> map_option id_db (Some database_one)
        then use_preload preloaded_one (pending_two\<lparr>currentDatabase := Some database_one\<rparr>) = None
        else is_failure (requestStatus (schemasStore pending_two)))"
    by (simp add: pending_two_def example_fields use_preload_def preloaded_one_def)
  have st2: "step error_text preloaded_one (SwitchDatabase (Some database_one)) pending_two =
     Some seeded_one"
    by (rule step_seeded_one)
  from t2 g2 st2 have h: "requests seeded_one = requests pending_two"
    by blast
  from r f a b p st c e r2 st2 h show ?thesis by blast
qed

text \<open>
  Claim C4 as stated fails. Database 1 is preloaded and active at the start. While
  \<^verbatim>\<open>schemas\<close> has no subscriber the active database becomes database 2 and
  \<^verbatim>\<open>fetchSchemasForCurrentDatabase\<close> is called, so a list request for database 2 is pending.
  The active database switches to database 1 and the callback of \<^verbatim>\<open>schemas\<close> runs: it
  takes the preloaded schemas, starts no fetch and cancels nothing. The pending request
  then settles and replaces the store, which was for database 1, by the schemas of
  database 2.
\<close>

theorem pending_fetch_survives_preloaded_switch:
  "run error_text preloaded_one [DatabaseChanges (Some database_two), CallFetch]
     (initial (Some database_one)) = Some pending_two \<and>
   in_flight pending_two = [0] \<and>
   currentDatabase pending_two = Some database_two \<and>
   step error_text preloaded_one (SwitchDatabase (Some database_one)) pending_two =
     Some seeded_one \<and>
   currentDatabase seeded_one = Some database_one \<and>
   databaseId (schemasStore seeded_one) = Some (id_db database_one) \<and>
   in_flight seeded_one = [0] \<and>
   step error_text preloaded_one (ListSettles 0 (Inr [raw_six])) seeded_one =
     Some overwritten_two \<and>
   schemasStore overwritten_two \<noteq> schemasStore seeded_one \<and>
   databaseId (schemasStore overwritten_two) = Some (id_db database_two) \<and>
   currentDatabase overwritten_two = Some database_one"
proof -
  have a: "run error_text preloaded_one [DatabaseChanges (Some database_two), CallFetch]
     (initial (Some database_one)) = Some pending_two"
    by (rule run_pending_two)
  have b: "in_flight pending_two = [0]" "currentDatabase pending_two = Some database_two"
    by (simp_all add: in_flight_def pending_two_def)
  have c: "step error_text preloaded_one (SwitchDatabase (Some database_one)) pending_two =
     Some seeded_one"
    by (rule step_seeded_one)
  have d: "currentDatabase seeded_one = Some database_one"
    "databaseId (schemasStore seeded_one) = Some (id_db database_one)"
    "in_flight seeded_one = [0]"
    by (simp_all add: in_flight_def seeded_one_def example_fields)
  have e: "step error_text preloaded_one (ListSettles 0 (Inr [raw_six])) seeded_one =
     Some overwritten_two"
    by (rule step_overwritten_two)
  have f: "databaseId (schemasStore overwritten_two) = Some (id_db database_two)"
    "currentDatabase overwritten_two = Some database_one"
    by (simp_all add: overwritten_two_def example_fields)
  have "databaseId (schemasStore overwritten_two) \<noteq> databaseId (schemasStore seeded_one)"
    by (simp add: overwritten_two_def seeded_one_def)
  then have g: "schemasStore overwritten_two \<noteq> schemasStore seeded_one"
    by metis
  from a b c d e f g show ?thesis by blast
qed

subsection \<open>C5: \<^verbatim>\<open>createSchema\<close>\<close>

text \<open>
  Claim C5. \<^verbatim>\<open>createSchema\<close> calls the remote add operation with the database id, the name
  and the description. When the call returns \<open>rawSchema\<close>, the function returns normally;
  if the store's \<open>databaseId\<close> is then the id of the database, the schema built from
  \<open>rawSchema\<close> is stored under its oid and nothing else changes; if not, the store is
  unchanged.
\<close>

theorem createSchema_inserts_when_same_database:
  "add (id_db db) (props_name props) (props_description props) = Inr rawSchema \<Longrightarrow>
   createSchema add db props value =
     (Inr (),
      if databaseId value = Some (id_db db)
      then value\<lparr>data := (data value)(raw_oid rawSchema \<mapsto> new_Schema db rawSchema)\<rparr>
      else value)"
  by (simp add: createSchema_def updateSchemaInStore_def new_Schema_def)

theorem createSchema_inserts_when_same_database_witness:
  "createSchema (\<lambda>_ _ _. Inr raw_six :: string + RawSchema) database_one props_public store_one =
     (Inr (), store_one\<lparr>data := (data store_one)(6 \<mapsto> new_Schema database_one raw_six)\<rparr>) \<and>
   createSchema (\<lambda>_ _ _. Inr raw_six :: string + RawSchema) database_two props_public store_one =
     (Inr (), store_one)"
  using createSchema_inserts_when_same_database [of "\<lambda>_ _ _. Inr raw_six :: string + RawSchema"
          database_one props_public raw_six store_one]
        createSchema_inserts_when_same_database [of "\<lambda>_ _ _. Inr raw_six :: string + RawSchema"
          database_two props_public raw_six store_one]
  by (simp add: example_fields)

subsection \<open>C6: \<^verbatim>\<open>deleteSchema\<close>\<close>

text \<open>
  Claim C6. \<^verbatim>\<open>deleteSchema\<close> calls the schema's remote delete. When the call succeeds, the
  function returns normally; if the store's \<open>databaseId\<close> is then the id of the schema's
  database, the entry under the schema's oid is removed and nothing else changes; if
  not, the store is unchanged.
\<close>

theorem deleteSchema_removes_when_same_database:
  "delete schema = Inr () \<Longrightarrow>
   deleteSchema delete schema value =
     (Inr (),
      if databaseId value = Some (id_db (database schema))
      then value\<lparr>data := (data value)(oid schema := None)\<rparr>
      else value)"
  by (simp add: deleteSchema_def removeSchemaInStore_def)

theorem deleteSchema_removes_when_same_database_witness:
  "deleteSchema (\<lambda>_. Inr () :: string + unit) (new_Schema database_one raw_five) store_one =
     (Inr (), store_one\<lparr>data := (data store_one)(5 := None)\<rparr>) \<and>
   deleteSchema (\<lambda>_. Inr () :: string + unit) (new_Schema database_two raw_five) store_one =
     (Inr (), store_one)"
  using deleteSchema_removes_when_same_database [of "\<lambda>_. Inr () :: string + unit"
          "new_Schema database_one raw_five" store_one]
        deleteSchema_removes_when_same_database [of "\<lambda>_. Inr () :: string + unit"
          "new_Schema database_two raw_five" store_one]
  by (simp add: example_fields new_Schema_def)

subsection \<open>C7: create, then delete\<close>

text \<open>
  Claim C7, as amended. Creating a schema and then deleting that same schema gives back
  the store as it was before the create exactly when the store had no entry under the new
  schema's oid, or was not a store for that database (then neither call changes it).
\<close>

theorem create_then_delete_restores_iff_fresh:
  assumes "add (id_db db) (props_name props) (props_description props) = Inr rawSchema"
    and "delete (new_Schema db rawSchema) = Inr ()"
  shows "snd (deleteSchema delete (new_Schema db rawSchema)
                (snd (createSchema add db props value))) = value
         \<longleftrightarrow> (databaseId value = Some (id_db db) \<longrightarrow> data value (raw_oid rawSchema) = None)"
proof -
  have "snd (deleteSchema delete (new_Schema db rawSchema)
                (snd (createSchema add db props value))) =
        removeSchemaInStore db (new_Schema db rawSchema)
          (updateSchemaInStore db (new_Schema db rawSchema) value)"
    using assms by (simp add: createSchema_def deleteSchema_def new_Schema_def)
  then show ?thesis
    by (simp add: create_then_delete data_update_eq fun_upd_idem_iff)
qed

theorem create_then_delete_restores_iff_fresh_witness:
  "data store_one (raw_oid raw_six) = None \<and>
   snd (deleteSchema (\<lambda>_. Inr () :: string + unit) (new_Schema database_one raw_six)
         (snd (createSchema (\<lambda>_ _ _. Inr raw_six :: string + RawSchema) database_one
                 props_public store_one))) = store_one"
  using create_then_delete_restores_iff_fresh [of "\<lambda>_ _ _. Inr raw_six :: string + RawSchema"
          database_one props_public raw_six "\<lambda>_. Inr () :: string + unit" store_one]
  by (simp add: example_fields)

text \<open>
  Claim C7 as stated fails on a store that already holds an entry under the oid the add
  call returns: the create overwrites the entry and the delete removes it.
\<close>

theorem create_then_delete_drops_existing_entry:
  "snd (deleteSchema delete_succeeds (new_Schema database_one raw_five)
         (snd (createSchema (add_returns raw_five) database_one props_public store_one)))
     \<noteq> store_one"
proof
  assume "snd (deleteSchema delete_succeeds (new_Schema database_one raw_five)
         (snd (createSchema (add_returns raw_five) database_one props_public store_one)))
     = store_one"
  then have "data (snd (deleteSchema delete_succeeds (new_Schema database_one raw_five)
         (snd (createSchema (add_returns raw_five) database_one props_public store_one)))) 5
     = data store_one 5"
    by simp
  then show False
    by (simp add: database_one_def raw_five_def store_one_def add_returns_def
          delete_succeeds_def createSchema_def deleteSchema_def updateSchemaInStore_def
          removeSchemaInStore_def new_Schema_def)
qed

subsection \<open>C8: which failures reach the caller\<close>

text \<open>
  Claim C8. A failure of the list call is caught: \<^verbatim>\<open>fetchSchemasForCurrentDatabase\<close> returns
  normally and the status is failure with the message \<open>getErrorMessage err\<close>. A failure of
  the add call of \<^verbatim>\<open>createSchema\<close> or of the delete call of \<^verbatim>\<open>deleteSchema\<close> is what the
  function returns to its caller, and the store is unchanged.
\<close>

theorem list_failure_caught_create_delete_propagate:
  "fst (fetchSchemasForCurrentDatabase_resume gem db (Inl err) value) = Inr () \<and>
   requestStatus (snd (fetchSchemasForCurrentDatabase_resume gem db (Inl err) value)) =
     Failure [gem err] \<and>
   (currentDatabase s = Some db \<and> list (id_db db) = Inl err \<longrightarrow>
      fst (fetchSchemasForCurrentDatabase gem list s) = Inr () \<and>
      requestStatus (schemasStore (snd (fetchSchemasForCurrentDatabase gem list s))) =
        Failure [gem err]) \<and>
   (add (id_db db) (props_name props) (props_description props) = Inl err \<longrightarrow>
      createSchema add db props value = (Inl err, value)) \<and>
   (delete schema = Inl err \<longrightarrow> deleteSchema delete schema value = (Inl err, value))"
  by (simp add: fetch_run_store start_store_Some fetchSchemasForCurrentDatabase_resume_def
        createSchema_def deleteSchema_def)

theorem list_failure_caught_create_delete_propagate_witness:
  "currentDatabase (initial (Some database_one)) = Some database_one \<and>
   fst (fetchSchemasForCurrentDatabase (\<lambda>e::string. e) (\<lambda>_. Inl ''timeout'')
          (initial (Some database_one))) = Inr () \<and>
   requestStatus (schemasStore (snd (fetchSchemasForCurrentDatabase (\<lambda>e::string. e)
      (\<lambda>_. Inl ''timeout'') (initial (Some database_one))))) = Failure [''timeout''] \<and>
   createSchema (\<lambda>_ _ _. Inl ''timeout'') database_one props_public store_one =
     (Inl ''timeout'', store_one) \<and>
   deleteSchema (\<lambda>_. Inl ''timeout'') (new_Schema database_one raw_five) store_one =
     (Inl ''timeout'', store_one)"
  using list_failure_caught_create_delete_propagate [of "\<lambda>e::string. e" database_one
          "''timeout''" store_one "initial (Some database_one)" "\<lambda>_. Inl ''timeout''"
          "\<lambda>_ _ _. Inl ''timeout''" props_public "\<lambda>_. Inl ''timeout''"
          "new_Schema database_one raw_five"]
  by (simp add: initial_fields)

subsection \<open>C9: the cached schemas belong to the store's database\<close>

text \<open>
  Claim C9. In every state the module can reach in which the status is success or
  processing, every schema in the data map is owned by a database whose id is the store's
  \<open>databaseId\<close>.
\<close>

theorem cached_schemas_belong_to_database:
  assumes "run gem cd evs (initial db0) = Some s"
    and "requestStatus (schemasStore s) = Success \<or> requestStatus (schemasStore s) = Processing"
    and "data (schemasStore s) k = Some sc"
  shows "databaseId (schemasStore s) = Some (id_db (database sc))"
proof -
  have "schemas_belong (schemasStore s)"
    using assms(1) initial_schemas_belong by (rule run_schemas_belong)
  with assms(3) show ?thesis
    by (simp add: schemas_belong_def)
qed

theorem cached_schemas_belong_to_database_witness:
  "run (\<lambda>e::string. e) preloaded_one [CallFetch, ListSettles 0 (Inr [raw_five])]
     (initial (Some database_one)) = Some fetched_one \<and>
   requestStatus (schemasStore fetched_one) = Success \<and>
   data (schemasStore fetched_one) 5 = Some (new_Schema database_one raw_five) \<and>
   databaseId (schemasStore fetched_one) = Some (id_db database_one)"
proof -
  have r: "run (\<lambda>e::string. e) preloaded_one [CallFetch, ListSettles 0 (Inr [raw_five])]
     (initial (Some database_one)) = Some fetched_one"
    by (rule run_fetched_one)
  have st: "requestStatus (schemasStore fetched_one) = Success \<or>
            requestStatus (schemasStore fetched_one) = Processing"
    and st': "requestStatus (schemasStore fetched_one) = Success"
    and d: "data (schemasStore fetched_one) 5 = Some (new_Schema database_one raw_five)"
    by (simp_all add: fetched_one_def)
  from cached_schemas_belong_to_database [OF r st d]
  have "databaseId (schemasStore fetched_one) = Some (id_db database_one)"
    by (simp add: new_Schema_def)
  with r st' d show ?thesis by blast
qed

subsection \<open>C10: fetching with no database selected\<close>

text \<open>
  Claim C10. When no database is selected, \<^verbatim>\<open>fetchSchemasForCurrentDatabase\<close> cancels the
  request held in \<^verbatim>\<open>request\<close>, resets the store to the empty map with status success and no
  \<open>databaseId\<close>, issues no list request, and returns normally. When the call is made in a
  state the module can reach, or in such a state just after the active database became
  undefined, no list request is in flight afterwards.
\<close>

theorem fetch_without_database_resets:
  assumes "currentDatabase s = None"
  shows "schemasStore (fetchSchemasForCurrentDatabase_start s) =
           \<lparr>databaseId = None, requestStatus = Success, data = Map.empty\<rparr> \<and>
         length (requests (fetchSchemasForCurrentDatabase_start s)) = length (requests s) \<and>
         request (fetchSchemasForCurrentDatabase_start s) = request s \<and>
         (\<forall>i<length (requests s). request s = Some i \<longrightarrow>
            promise_state (requests (fetchSchemasForCurrentDatabase_start s) ! i) \<noteq> Pending) \<and>
         (run gem cd evs (initial db0) = Some s0 \<and> s = s0\<lparr>currentDatabase := None\<rparr> \<longrightarrow>
            in_flight (fetchSchemasForCurrentDatabase_start s) = []) \<and>
         fetchSchemasForCurrentDatabase gem list s =
           (Inr (), fetchSchemasForCurrentDatabase_start s)"
proof -
  have a: "schemasStore (fetchSchemasForCurrentDatabase_start s) =
           \<lparr>databaseId = None, requestStatus = Success, data = Map.empty\<rparr>"
    using assms by (simp add: start_store_None makeEmptySchemasData_def)
  have b: "length (requests (fetchSchemasForCurrentDatabase_start s)) = length (requests s)"
    "request (fetchSchemasForCurrentDatabase_start s) = request s"
    using assms by (simp_all add: start_length start_request)
  have c: "\<forall>i<length (requests s). request s = Some i \<longrightarrow>
            promise_state (requests (fetchSchemasForCurrentDatabase_start s) ! i) \<noteq> Pending"
    by (simp add: start_requests_old cancel_request_nth)
  have d: "run gem cd evs (initial db0) = Some s0 \<and> s = s0\<lparr>currentDatabase := None\<rparr> \<longrightarrow>
            in_flight (fetchSchemasForCurrentDatabase_start s) = []"
  proof
    assume r: "run gem cd evs (initial db0) = Some s0 \<and> s = s0\<lparr>currentDatabase := None\<rparr>"
    then have "only_request_pending s0"
      using run_only_request_pending initial_only_request_pending by blast
    with r have "only_request_pending s"
      by (simp add: only_request_pending_def)
    from start_none_in_flight [OF this assms]
    show "in_flight (fetchSchemasForCurrentDatabase_start s) = []" .
  qed
  have e: "fetchSchemasForCurrentDatabase gem list s =
           (Inr (), fetchSchemasForCurrentDatabase_start s)"
    using assms by (simp add: fetchSchemasForCurrentDatabase_def)
  from a b c d e show ?thesis by blast
qed

theorem fetch_without_database_resets_witness:
  "currentDatabase pending_no_database = None \<and>
   run error_text preloaded_one [CallFetch] (initial (Some database_one)) =
     Some (pending_no_database\<lparr>currentDatabase := Some database_one\<rparr>) \<and>
   request pending_no_database = Some 0 \<and>
   promise_state (requests pending_no_database ! 0) = Pending \<and>
   schemasStore (fetchSchemasForCurrentDatabase_start pending_no_database) =
     \<lparr>databaseId = None, requestStatus = Success, data = Map.empty\<rparr> \<and>
   length (requests (fetchSchemasForCurrentDatabase_start pending_no_database)) = 1 \<and>
   promise_state (requests (fetchSchemasForCurrentDatabase_start pending_no_database) ! 0)
     \<noteq> Pending \<and>
   in_flight (fetchSchemasForCurrentDatabase_start pending_no_database) = []"
proof -
  let ?s0 = "pending_no_database\<lparr>currentDatabase := Some database_one\<rparr>"
  have h: "currentDatabase pending_no_database = None"
    and q: "request pending_no_database = Some 0"
    and l: "0 < length (requests pending_no_database)"
      "length (requests pending_no_database) = 1"
    and p: "promise_state (requests pending_no_database ! 0) = Pending"
    and u: "pending_no_database = ?s0\<lparr>currentDatabase := None\<rparr>"
    by (simp_all add: pending_no_database_def)
  have r: "run error_text preloaded_one [CallFetch] (initial (Some database_one)) = Some ?s0"
    by (rule run_one_pending)
  note t = fetch_without_database_resets [OF h, of error_text preloaded_one "[CallFetch]"
             "Some database_one" ?s0 "\<lambda>_. Inr []"]
  from t have a: "schemasStore (fetchSchemasForCurrentDatabase_start pending_no_database) =
     \<lparr>databaseId = None, requestStatus = Success, data = Map.empty\<rparr>"
    by blast
  from t l(2) have b:
    "length (requests (fetchSchemasForCurrentDatabase_start pending_no_database)) = 1"
    by simp
  from t l(1) q have c:
    "promise_state (requests (fetchSchemasForCurrentDatabase_start pending_no_database) ! 0)
       \<noteq> Pending"
    by blast
  from t r u have d: "in_flight (fetchSchemasForCurrentDatabase_start pending_no_database) = []"
    by blast
  from h r q p a b c d show ?thesis by blast
qed

end
